theory Spec2Isabelle
  imports Main "HOL-Library.Sublist"
begin

section \<open>convert\_eprime: a shallow embedding\<close>

text \<open>
  The module \<^verbatim>\<open>convert_eprime.py\<close> (Python 2) turns E-Prime logs into csv tables.
  Its strings are byte strings, modelled as \<^typ>\<open>string\<close>; its tables are lists of
  lists of strings. Every exception the functions can raise is a value of
  \<open>error\<close>, and a function that can raise returns \<open>error + 'a\<close>.
\<close>

datatype error =
  ValueError string
| IndexError

abbreviation NULL :: string where
  "NULL \<equiv> ''NULL''"

subsection \<open>\<^verbatim>\<open>_det_file_type\<close>\<close>

text \<open>
  \<^verbatim>\<open>os.path.splitext\<close> belongs to Python's standard library
  (\<^verbatim>\<open>genericpath._splitext\<close>, called by \<^verbatim>\<open>posixpath\<close> with the separator
  \<^verbatim>\<open>/\<close> and the extension separator \<^verbatim>\<open>.\<close>):
  \<^verbatim>\<open>
  def _splitext(p, sep, altsep, extsep):
      sepIndex = p.rfind(sep)
      dotIndex = p.rfind(extsep)
      if dotIndex > sepIndex:
          # skip all leading dots
          filenameIndex = sepIndex + 1
          while filenameIndex < dotIndex:
              if p[filenameIndex] != extsep:
                  return p[:dotIndex], p[dotIndex:]
              filenameIndex += 1
      return p, ''
  \<close>
  \<^verbatim>\<open>rfind\<close> is the last position of a character, or \<open>-1\<close>.
\<close>

definition rfind :: "string \<Rightarrow> char \<Rightarrow> int" where
  "rfind p c =
     (if c \<in> set p
      then int (length p) - 1 - int (length (takeWhile (\<lambda>x. x \<noteq> c) (rev p)))
      else - 1)"

function skip_dots :: "string \<Rightarrow> nat \<Rightarrow> nat \<Rightarrow> bool" where
  "skip_dots p filenameIndex dotIndex =
     (if filenameIndex < dotIndex
      then (if p ! filenameIndex \<noteq> CHR ''.'' then True
            else skip_dots p (Suc filenameIndex) dotIndex)
      else False)"
  by pat_completeness auto
termination
  by (relation "measure (\<lambda>(p, filenameIndex, dotIndex). dotIndex - filenameIndex)") auto

declare skip_dots.simps [simp del]

definition splitext :: "string \<Rightarrow> string \<times> string" where
  "splitext p =
     (let sepIndex = rfind p CHR ''/'';
          dotIndex = rfind p CHR ''.''
      in if dotIndex > sepIndex \<and> skip_dots p (nat (sepIndex + 1)) (nat dotIndex)
         then (take (nat dotIndex) p, drop (nat dotIndex) p)
         else (p, ''''))"

text \<open>
  \<^verbatim>\<open>
  def _det_file_type(in_file):
      [fn, sf] = os.path.splitext(in_file)
      if sf == ".csv":
          delimiter_ = ","
          rem_lines = 0
      elif sf == ".txt":
          delimiter_ = "\t"
          rem_lines = 3
      elif len(in_file) == 0:
          raise ValueError("Input file name is empty.")
      else:
          raise ValueError("Input file name is not .csv or .txt.")
      return delimiter_, rem_lines
  \<close>
\<close>

definition det_file_type :: "string \<Rightarrow> error + string \<times> nat" where
  "det_file_type in_file =
     (let sf = snd (splitext in_file)
      in if sf = ''.csv'' then Inr ('','', 0)
         else if sf = ''.txt'' then Inr ([CHR 0x09], 3)
         else if length in_file = 0 then Inl (ValueError ''Input file name is empty.'')
         else Inl (ValueError ''Input file name is not .csv or .txt.''))"

text \<open>
  The last component of a path (\<^verbatim>\<open>posixpath.basename\<close>: what follows the last
  \<^verbatim>\<open>/\<close>), and whether it holds a character other than a dot: the stem an
  extension needs in front of it.
\<close>

definition basename :: "string \<Rightarrow> string" where
  "basename p = drop (nat (rfind p CHR ''/'' + 1)) p"

definition has_stem :: "string \<Rightarrow> bool" where
  "has_stem p = list_ex (\<lambda>c. c \<noteq> CHR ''.'') (basename p)"

subsection \<open>Reading the log: sanitising, frames, fields\<close>

text \<open>
  \<^verbatim>\<open>
  def _strip(string):
      return "".join([val for val in string if 31 < ord(val) < 127])
  \<close>
\<close>

definition strip :: "string \<Rightarrow> string" where
  "strip string = filter (\<lambda>val. 31 < (of_char val :: nat) \<and> (of_char val :: nat) < 127) string"

abbreviation LogFrameStart :: string where
  "LogFrameStart \<equiv> ''*** LogFrame Start ***''"

abbreviation LogFrameEnd :: string where
  "LogFrameEnd \<equiv> ''*** LogFrame End ***''"

text \<open>
  Both \<^verbatim>\<open>text_to_csv\<close> and \<^verbatim>\<open>text_to_rcsv\<close> begin with the same statements:
  \<^verbatim>\<open>
  filtered_data = [_strip(row) for row in text_data]
  start_index = [i_row for i_row, row in enumerate(filtered_data)
                 if row == "*** LogFrame Start ***"]
  end_index = [i_row for i_row, row in enumerate(filtered_data)
               if row == "*** LogFrame End ***"]
  if (len(start_index) != len(end_index) or start_index[0] >= end_index[0]):
      raise ValueError("LogFrame Starts and Ends do not match up.")
  \<close>
  The \<^verbatim>\<open>or\<close> evaluates its second operand only when the counts are equal; then
  \<^verbatim>\<open>start_index[0]\<close> raises IndexError on an empty list.
\<close>

definition marker_index :: "string \<Rightarrow> string list \<Rightarrow> nat list" where
  "marker_index marker filtered_data =
     filter (\<lambda>i_row. filtered_data ! i_row = marker) [0..<length filtered_data]"

definition check_frames :: "nat list \<Rightarrow> nat list \<Rightarrow> error option" where
  "check_frames start_index end_index =
     (if length start_index \<noteq> length end_index
      then Some (ValueError ''LogFrame Starts and Ends do not match up.'')
      else (case start_index of
              [] \<Rightarrow> Some IndexError
            | s # _ \<Rightarrow>
                (case end_index of
                   [] \<Rightarrow> Some IndexError
                 | e # _ \<Rightarrow>
                     if s \<ge> e
                     then Some (ValueError ''LogFrame Starts and Ends do not match up.'')
                     else None)))"

text \<open>
  A slice \<^verbatim>\<open>xs[a:b]\<close> with non-negative bounds, and the slice assignment
  \<^verbatim>\<open>xs[a:b] = ys\<close> (CPython moves \<^verbatim>\<open>b\<close> up to \<^verbatim>\<open>a\<close> when it is smaller; bounds
  beyond the end are clipped, as \<open>take\<close> and \<open>drop\<close> do).
\<close>

definition slice :: "'a list \<Rightarrow> nat \<Rightarrow> nat \<Rightarrow> 'a list" where
  "slice xs a b = take (b - a) (drop a xs)"

definition slice_assign :: "'a list \<Rightarrow> nat \<Rightarrow> nat \<Rightarrow> 'a list \<Rightarrow> 'a list" where
  "slice_assign xs a b ys = take a xs @ ys @ drop (max a b) xs"

text \<open>
  \<^verbatim>\<open>
  for i_row in range(len(start_index)):
      one_row = filtered_data[start_index[i_row]+1:end_index[i_row]]
      data_by_rows.append(one_row)
      for j_col in range(len(one_row)):
          split_header_idx = one_row[j_col].index(": ")
          all_headers.append(one_row[j_col][:split_header_idx])
  \<close>
  \<open>data_by_rows\<close> is the list of blocks; \<open>split_field\<close> is the split of one line at
  the first \<^verbatim>\<open>": "\<close>, where \<^verbatim>\<open>str.index\<close> raises ValueError when there is none.
\<close>

definition data_by_rows :: "string list \<Rightarrow> error + string list list" where
  "data_by_rows filtered_data =
     (let start_index = marker_index LogFrameStart filtered_data;
          end_index = marker_index LogFrameEnd filtered_data
      in case check_frames start_index end_index of
           Some e \<Rightarrow> Inl e
         | None \<Rightarrow>
             Inr (map (\<lambda>i_row. slice filtered_data (start_index ! i_row + 1) (end_index ! i_row))
                    [0..<length start_index]))"

fun str_index :: "string \<Rightarrow> string \<Rightarrow> nat option" where
  "str_index sub [] = (if sub = [] then Some 0 else None)"
| "str_index sub (c # cs) =
     (if prefix sub (c # cs) then Some 0 else map_option Suc (str_index sub cs))"

definition split_field :: "string \<Rightarrow> error + string \<times> string" where
  "split_field line =
     (case str_index '': '' line of
        None \<Rightarrow> Inl (ValueError ''substring not found'')
      | Some split_header_idx \<Rightarrow>
          Inr (take split_header_idx line, drop (split_header_idx + 2) line))"

text \<open>A loop body that can raise, run over a list: the first error ends the loop.\<close>

fun map_err :: "('a \<Rightarrow> error + 'b) \<Rightarrow> 'a list \<Rightarrow> error + 'b list" where
  "map_err f [] = Inr []"
| "map_err f (x # xs) =
     (case f x of
        Inl e \<Rightarrow> Inl e
      | Inr y \<Rightarrow> (case map_err f xs of Inl e \<Rightarrow> Inl e | Inr ys \<Rightarrow> Inr (y # ys)))"

definition parse_rows :: "string list list \<Rightarrow> error + (string \<times> string) list list" where
  "parse_rows rows = map_err (map_err split_field) rows"

definition all_headers :: "(string \<times> string) list list \<Rightarrow> string list" where
  "all_headers parsed = concat (map (map fst) parsed)"

subsection \<open>The dense table and the column fills\<close>

text \<open>
  \<^verbatim>\<open>
  unique_headers = list(set(all_headers))
  null_col = ["NULL"] * (len(start_index)+1)
  data_matrix = [null_col[:] for i_col in range(len(unique_headers))]
  for i_col in range(len(unique_headers)):
      data_matrix[i_col][0] = unique_headers[i_col]
  for i_row in range(len(start_index)):
      for j_col in range(len(data_by_rows[i_row])):
          split_header_idx = data_by_rows[i_row][j_col].index(": ")
          for k_header in range(len(unique_headers)):
              if (data_by_rows[i_row][j_col][:split_header_idx] ==
                      unique_headers[k_header]):
                  data_matrix[k_header][i_row + 1] = (data_by_rows[i_row][j_col]
                                                      [split_header_idx+2:])
  \<close>
  The order in which Python lists a set is not fixed by the language; the model takes
  it as the parameter \<open>uniq\<close>, a function from \<open>all_headers\<close> to the list
  \<open>unique_headers\<close>. The table is column-major: one list per header, the header in
  cell 0.
\<close>

definition null_matrix :: "string list \<Rightarrow> nat \<Rightarrow> string list list" where
  "null_matrix unique_headers n_rows =
     map (\<lambda>header. (replicate (n_rows + 1) NULL)[0 := header]) unique_headers"

definition put_field ::
  "string list \<Rightarrow> nat \<Rightarrow> string \<times> string \<Rightarrow> string list list \<Rightarrow> string list list" where
  "put_field unique_headers i_row field data_matrix =
     fold (\<lambda>k_header dm.
             if fst field = unique_headers ! k_header
             then dm[k_header := (dm ! k_header)[i_row + 1 := snd field]]
             else dm)
          [0..<length unique_headers] data_matrix"

definition fill_matrix ::
  "string list \<Rightarrow> (string \<times> string) list list \<Rightarrow> string list list \<Rightarrow> string list list" where
  "fill_matrix unique_headers parsed data_matrix =
     fold (\<lambda>i_row dm. fold (put_field unique_headers i_row) (parsed ! i_row) dm)
          [0..<length parsed] data_matrix"

definition dense_matrix ::
  "(string list \<Rightarrow> string list) \<Rightarrow> string list \<Rightarrow> error + string list list" where
  "dense_matrix uniq text_data =
     (case data_by_rows (map strip text_data) of
        Inl e \<Rightarrow> Inl e
      | Inr rows \<Rightarrow>
          (case parse_rows rows of
             Inl e \<Rightarrow> Inl e
           | Inr parsed \<Rightarrow>
               let unique_headers = uniq (all_headers parsed)
               in Inr (fill_matrix unique_headers parsed
                         (null_matrix unique_headers (length rows)))))"

text \<open>
  The fill loop of \<^verbatim>\<open>text_to_csv\<close>:
  \<^verbatim>\<open>
  for i_col, col in enumerate(data_matrix):
      rows_w_vals = [j_cell for j_cell, cell in enumerate(col) if cell != "NULL"]
      if len(rows_w_vals) == 2 and (rows_w_vals[1] == len(col) - 1):
          data_matrix[i_col][1:len(col)] = ([col[rows_w_vals[1]]] * (len(col) - 1))
      data_matrix[i_col] = col[:len(col) - 2]
  \<close>
  and of \<^verbatim>\<open>text_to_rcsv\<close>:
  \<^verbatim>\<open>
  for i_col, col in enumerate(data_matrix):
      rows_w_vals = [j_cell for j_cell, cell in enumerate(col) if cell != "NULL"]
      if len(rows_w_vals) == 2 and (rows_w_vals[1] == len(col) - 1 or rows_w_vals[1] == len(col) - 2):
          data_matrix[i_col][1:len(col)] = ([col[rows_w_vals[1]]] * (len(col) - 1))
      elif any([header in col[0] for header in fill_block]):
          for null_row in range(1, len(rows_w_vals)):
              first = rows_w_vals[null_row - 1] + 1
              last = rows_w_vals[null_row]
              n_rows_to_fill = len(range(rows_w_vals[null_row - 1] + 1, rows_w_vals[null_row]))
              data_matrix[i_col][first:last] = (col[rows_w_vals[null_row]] * n_rows_to_fill)
      data_matrix[i_col] = col[:len(col) - 2]
  \<close>
  \<^verbatim>\<open>col\<close> and \<^verbatim>\<open>data_matrix[i_col]\<close> are one list object, so every slice assignment
  is seen by the later reads of \<^verbatim>\<open>col\<close>. In the second branch the right-hand side is
  a string multiplied by a number (no list brackets): the string repeated, and a slice
  assignment from a string stores its characters, one cell each.
\<close>

definition rows_w_vals :: "string list \<Rightarrow> nat list" where
  "rows_w_vals col = filter (\<lambda>j_cell. col ! j_cell \<noteq> NULL) [0..<length col]"

definition trailing_fill :: "string list \<Rightarrow> nat list \<Rightarrow> string list" where
  "trailing_fill col rw =
     slice_assign col 1 (length col) (replicate (length col - 1) (col ! (rw ! 1)))"

definition truncate_col :: "string list \<Rightarrow> string list" where
  "truncate_col col = take (length col - 2) col"

definition fill_column_csv :: "string list \<Rightarrow> string list" where
  "fill_column_csv col =
     (let rw = rows_w_vals col
      in truncate_col (if length rw = 2 \<and> int (rw ! 1) = int (length col) - 1
                   then trailing_fill col rw else col))"

definition str_mult :: "string \<Rightarrow> nat \<Rightarrow> string" where
  "str_mult s n = concat (replicate n s)"

definition chars_of :: "string \<Rightarrow> string list" where
  "chars_of s = map (\<lambda>c. [c]) s"

fun block_fill :: "nat list \<Rightarrow> string list \<Rightarrow> error + string list" where
  "block_fill (prev_row # last_row # rest) col =
     (if last_row < length col
      then block_fill (last_row # rest)
             (slice_assign col (prev_row + 1) last_row
                (chars_of (str_mult (col ! last_row) (last_row - (prev_row + 1)))))
      else Inl IndexError)"
| "block_fill [prev_row] col = Inr col"
| "block_fill [] col = Inr col"

fun is_in :: "string \<Rightarrow> string \<Rightarrow> bool" where
  "is_in sub [] = (sub = [])"
| "is_in sub (c # cs) = (prefix sub (c # cs) \<or> is_in sub cs)"

definition fill_column_rcsv :: "string list \<Rightarrow> string list \<Rightarrow> error + string list" where
  "fill_column_rcsv fill_block col =
     (let rw = rows_w_vals col
      in case (if length rw = 2 \<and> (int (rw ! 1) = int (length col) - 1
                                    \<or> int (rw ! 1) = int (length col) - 2)
               then Inr (trailing_fill col rw)
               else if fill_block \<noteq> [] \<and> col = [] then Inl IndexError
               else if list_ex (\<lambda>header. is_in header (col ! 0)) fill_block
               then block_fill rw col
               else Inr col) of
           Inl e \<Rightarrow> Inl e
         | Inr col' \<Rightarrow> Inr (truncate_col col'))"

text \<open>
  \<^verbatim>\<open>
  def _transpose(list_):
      transposed_ = [[row[col] for row in list_] for col in range(len(list_[0]))]
      transposed = [col for col in transposed_ if col]
      return transposed
  \<close>
\<close>

definition transpose_py :: "string list list \<Rightarrow> error + string list list" where
  "transpose_py list_0 =
     (case list_0 of
        [] \<Rightarrow> Inl IndexError
      | first # _ \<Rightarrow>
          if list_ex (\<lambda>row. length row < length first) list_0 then Inl IndexError
          else Inr (filter (\<lambda>col. col \<noteq> [])
                      (map (\<lambda>col. map (\<lambda>row. row ! col) list_0) [0..<length first])))"

subsection \<open>\<^verbatim>\<open>text_to_csv\<close>\<close>

text \<open>
  The model returns the rows handed to \<^verbatim>\<open>csv.writer\<close>; opening and writing the
  files are outside it.
\<close>

definition text_to_csv ::
  "(string list \<Rightarrow> string list) \<Rightarrow> string list \<Rightarrow> error + string list list" where
  "text_to_csv uniq text_data =
     (case dense_matrix uniq text_data of
        Inl e \<Rightarrow> Inl e
      | Inr data_matrix \<Rightarrow> transpose_py (map fill_column_csv data_matrix))"

subsection \<open>\<^verbatim>\<open>_merge_lists\<close>\<close>

text \<open>
  \<^verbatim>\<open>
  def _merge_lists(lists, option):
      if type(lists[0]) != list:
          return lists
      else:
          merged = lists[0]
          for i_col in range(len(lists)):
              if option == "all_null":
                  merged = [lists[i_col][i_row] if lists[i_col][i_row] == "NULL"
                            else merged[i_row] for i_row in range(len(merged))]
              elif option == "all_else":
                  merged = [lists[i_col][i_row] if lists[i_col][i_row] != "NULL"
                            else merged[i_row] for i_row in range(len(merged))]
          return merged
  \<close>
  The argument is typed as a list of columns, so \<^verbatim>\<open>type(lists[0]) != list\<close> is false
  and the first branch is never taken; \<^verbatim>\<open>lists[0]\<close> of an empty list raises
  IndexError. A comprehension reads \<^verbatim>\<open>lists[i_col][i_row]\<close> for every row of
  \<^verbatim>\<open>merged\<close>, which raises IndexError when that column is shorter. Leading
  underscores are dropped from names.
\<close>

definition merge_row :: "string \<Rightarrow> string list \<Rightarrow> string list \<Rightarrow> nat \<Rightarrow> string" where
  "merge_row option col merged i_row =
     (if option = ''all_null''
      then (if col ! i_row = NULL then col ! i_row else merged ! i_row)
      else (if col ! i_row \<noteq> NULL then col ! i_row else merged ! i_row))"

definition merge_step :: "string \<Rightarrow> string list \<Rightarrow> string list \<Rightarrow> error + string list" where
  "merge_step option col merged =
     (if option = ''all_null'' \<or> option = ''all_else''
      then (if length col < length merged then Inl IndexError
            else Inr (map (merge_row option col merged) [0..<length merged]))
      else Inr merged)"

fun merge_loop :: "string \<Rightarrow> string list list \<Rightarrow> string list \<Rightarrow> error + string list" where
  "merge_loop option [] merged = Inr merged"
| "merge_loop option (col # cols) merged =
     (case merge_step option col merged of
        Inl e \<Rightarrow> Inl e
      | Inr merged' \<Rightarrow> merge_loop option cols merged')"

definition merge_lists :: "string list list \<Rightarrow> string \<Rightarrow> error + string list" where
  "merge_lists lsts option =
     (case lsts of
        [] \<Rightarrow> Inl IndexError
      | first # _ \<Rightarrow> merge_loop option lsts first)"

text \<open>
  The words of the specification for \<^verbatim>\<open>"all_else"\<close>: the value of the last source
  column that is not null at the row, and the first column's value when all are null.
\<close>

definition last_non_null :: "string list list \<Rightarrow> nat \<Rightarrow> string" where
  "last_non_null lsts i_row =
     (case filter (\<lambda>col. col ! i_row \<noteq> NULL) lsts of
        [] \<Rightarrow> hd lsts ! i_row
      | cs \<Rightarrow> last cs ! i_row)"

subsection \<open>\<^verbatim>\<open>text_to_rcsv\<close>\<close>

text \<open>
  The module reads its configuration from \<^verbatim>\<open>headers.pickle\<close>, which is not part of
  the sources. The record holds the values \<^verbatim>\<open>text_to_rcsv\<close> reads from it for
  its task: \<^verbatim>\<open>headers.get(task)\<close>, \<^verbatim>\<open>replace_dict.get(task).get(edat_suffix)\<close>,
  \<^verbatim>\<open>fill_block\<close>, \<^verbatim>\<open>merge_cols.get(task)\<close>, \<^verbatim>\<open>merge_col_names.get(task)\<close> and
  \<^verbatim>\<open>null_cols.get(task)\<close>.
\<close>

record config =
  header_list :: "string list"
  replacements :: "string \<Rightarrow> string option"
  fill_block :: "string list"
  columns_to_merge :: "string list list"
  merge_col_names_list :: "string list"
  null_column_names :: "string list"

text \<open>
  \<^verbatim>\<open>list.index(x)\<close>: the first position of \<^verbatim>\<open>x\<close>, or ValueError (whose message
  is shortened here to the value and \<^verbatim>\<open>is not in list\<close>).
\<close>

fun list_index :: "string list \<Rightarrow> string \<Rightarrow> error + nat" where
  "list_index [] val = Inl (ValueError (val @ '' is not in list''))"
| "list_index (x # xs) val =
     (if x = val then Inr 0
      else (case list_index xs val of Inl e \<Rightarrow> Inl e | Inr i \<Rightarrow> Inr (Suc i)))"

definition rcsv_data_matrix ::
  "config \<Rightarrow> (string list \<Rightarrow> string list) \<Rightarrow> string list \<Rightarrow> error + string list list" where
  "rcsv_data_matrix cfg uniq text_data =
     (case dense_matrix uniq text_data of
        Inl e \<Rightarrow> Inl e
      | Inr data_matrix \<Rightarrow> map_err (fill_column_rcsv (fill_block cfg)) data_matrix)"

text \<open>
  \<^verbatim>\<open>
  t_data_matrix = _transpose(data_matrix)
  t_data_matrix[0] = [replacements.get(item, item) for item in t_data_matrix[0]]
  \<close>
\<close>

definition rename :: "config \<Rightarrow> string \<Rightarrow> string" where
  "rename cfg item = (case replacements cfg item of None \<Rightarrow> item | Some r \<Rightarrow> r)"

definition rcsv_t_data_matrix :: "config \<Rightarrow> string list list \<Rightarrow> error + string list list" where
  "rcsv_t_data_matrix cfg data_matrix =
     (case transpose_py data_matrix of
        Inl e \<Rightarrow> Inl e
      | Inr [] \<Rightarrow> Inl IndexError
      | Inr (header_row # rest) \<Rightarrow> Inr (map (rename cfg) header_row # rest))"

text \<open>
  \<^verbatim>\<open>
  header_index = [t_data_matrix[0].index(header) for header in header_list]
  \<close>
\<close>

definition rcsv_header_index :: "config \<Rightarrow> string list list \<Rightarrow> error + nat list" where
  "rcsv_header_index cfg t_data_matrix = map_err (list_index (hd t_data_matrix)) (header_list cfg)"

text \<open>
  \<^verbatim>\<open>
  for i_merge in range(len(merge_col_names_list)):
      merge_col_nums = [t_data_matrix[0].index(hed) for hed in columns_to_merge[i_merge]]
      data_to_merge = [data_matrix[col] for col in merge_col_nums]
      merged_data.append(_merge_lists(data_to_merge, "all_else"))
      merged_data[i_merge][0] = merge_col_names_list[i_merge]
  \<close>
\<close>

definition merge_group ::
  "config \<Rightarrow> string list list \<Rightarrow> string list list \<Rightarrow> nat \<Rightarrow> error + string list" where
  "merge_group cfg data_matrix t_data_matrix i_merge =
     (if length (columns_to_merge cfg) \<le> i_merge then Inl IndexError
      else (case map_err (list_index (hd t_data_matrix)) (columns_to_merge cfg ! i_merge) of
              Inl e \<Rightarrow> Inl e
            | Inr merge_col_nums \<Rightarrow>
                (case merge_lists (map (\<lambda>col. data_matrix ! col) merge_col_nums) ''all_else'' of
                   Inl e \<Rightarrow> Inl e
                 | Inr merged \<Rightarrow>
                     if merged = [] then Inl IndexError
                     else Inr (merged[0 := merge_col_names_list cfg ! i_merge]))))"

text \<open>
  \<^verbatim>\<open>
  out_matrix = [[t_data_matrix[i_row][col] for col in header_index]
                for i_row in range(fn.size(t_data_matrix, 0))]
  if len(merged_data) != 0:
      t_merged_data = _transpose(merged_data)
      for i_row in range(len(out_matrix)):
          out_matrix[i_row] = out_matrix[i_row] + t_merged_data[i_row]
  \<close>
  \<^verbatim>\<open>fn.size(t_data_matrix, 0)\<close> is numpy's length of the first axis, the number of
  rows.
\<close>

definition append_merged :: "string list list \<Rightarrow> string list list \<Rightarrow> error + string list list" where
  "append_merged out_matrix merged_data =
     (if merged_data = [] then Inr out_matrix
      else (case transpose_py merged_data of
              Inl e \<Rightarrow> Inl e
            | Inr t_merged_data \<Rightarrow>
                if length t_merged_data < length out_matrix then Inl IndexError
                else Inr (map (\<lambda>i_row. out_matrix ! i_row @ t_merged_data ! i_row)
                            [0..<length out_matrix])))"

definition rcsv_out_matrix ::
  "config \<Rightarrow> string list list \<Rightarrow> string list list \<Rightarrow> nat list \<Rightarrow> error + string list list" where
  "rcsv_out_matrix cfg data_matrix t_data_matrix header_index =
     (case map_err (merge_group cfg data_matrix t_data_matrix)
             [0..<length (merge_col_names_list cfg)] of
        Inl e \<Rightarrow> Inl e
      | Inr merged_data \<Rightarrow>
          append_merged (map (\<lambda>row. map (\<lambda>col. row ! col) header_index) t_data_matrix)
            merged_data)"

text \<open>
  \<^verbatim>\<open>
  null_column_index = [header_index[header_list.index(column)] for column in
                       null_column_names]
  nulls_to_merge = [data_matrix[col_num] for col_num in null_column_index]
  merged_nulls_list = _merge_lists(nulls_to_merge, "all_null")
  null_index = sorted([i_row for i_row in range(len(merged_nulls_list)) if
                       merged_nulls_list[i_row] == "NULL"], reverse=True)
  [out_matrix.pop(null_row) for null_row in null_index]
  \<close>
\<close>

definition rcsv_merged_nulls ::
  "config \<Rightarrow> string list list \<Rightarrow> nat list \<Rightarrow> error + string list" where
  "rcsv_merged_nulls cfg data_matrix header_index =
     (case map_err (\<lambda>column. case list_index (header_list cfg) column of
                                Inl e \<Rightarrow> Inl e
                              | Inr i \<Rightarrow> Inr (header_index ! i))
             (null_column_names cfg) of
        Inl e \<Rightarrow> Inl e
      | Inr null_column_index \<Rightarrow>
          merge_lists (map (\<lambda>col_num. data_matrix ! col_num) null_column_index) ''all_null'')"

definition null_index :: "string list \<Rightarrow> nat list" where
  "null_index merged_nulls_list =
     rev (filter (\<lambda>i_row. merged_nulls_list ! i_row = NULL) [0..<length merged_nulls_list])"

definition pop :: "'a list \<Rightarrow> nat \<Rightarrow> error + 'a list" where
  "pop xs i = (if i < length xs then Inr (take i xs @ drop (Suc i) xs) else Inl IndexError)"

fun pop_rows :: "'a list \<Rightarrow> nat list \<Rightarrow> error + 'a list" where
  "pop_rows out_matrix [] = Inr out_matrix"
| "pop_rows out_matrix (null_row # rest) =
     (case pop out_matrix null_row of
        Inl e \<Rightarrow> Inl e
      | Inr out_matrix' \<Rightarrow> pop_rows out_matrix' rest)"

text \<open>
  The function in three parts: up to the renamed header row; up to the output matrix
  and the merged null column; the removal of the rows. The result is the list of rows
  handed to \<^verbatim>\<open>csv.writer\<close>.
\<close>

definition rcsv_renamed ::
  "config \<Rightarrow> (string list \<Rightarrow> string list) \<Rightarrow> string list
   \<Rightarrow> error + string list list \<times> string list list" where
  "rcsv_renamed cfg uniq text_data =
     (case rcsv_data_matrix cfg uniq text_data of
        Inl e \<Rightarrow> Inl e
      | Inr data_matrix \<Rightarrow>
          (case rcsv_t_data_matrix cfg data_matrix of
             Inl e \<Rightarrow> Inl e
           | Inr t_data_matrix \<Rightarrow> Inr (data_matrix, t_data_matrix)))"

definition rcsv_selected ::
  "config \<Rightarrow> string list list \<Rightarrow> string list list \<Rightarrow> error + string list list \<times> string list" where
  "rcsv_selected cfg data_matrix t_data_matrix =
     (case rcsv_header_index cfg t_data_matrix of
        Inl e \<Rightarrow> Inl e
      | Inr header_index \<Rightarrow>
          (case rcsv_out_matrix cfg data_matrix t_data_matrix header_index of
             Inl e \<Rightarrow> Inl e
           | Inr out_matrix \<Rightarrow>
               (case rcsv_merged_nulls cfg data_matrix header_index of
                  Inl e \<Rightarrow> Inl e
                | Inr merged_nulls_list \<Rightarrow> Inr (out_matrix, merged_nulls_list))))"

definition rcsv_before_prune ::
  "config \<Rightarrow> (string list \<Rightarrow> string list) \<Rightarrow> string list
   \<Rightarrow> error + string list list \<times> string list" where
  "rcsv_before_prune cfg uniq text_data =
     (case rcsv_renamed cfg uniq text_data of
        Inl e \<Rightarrow> Inl e
      | Inr (data_matrix, t_data_matrix) \<Rightarrow> rcsv_selected cfg data_matrix t_data_matrix)"

definition text_to_rcsv ::
  "config \<Rightarrow> (string list \<Rightarrow> string list) \<Rightarrow> string list \<Rightarrow> error + string list list" where
  "text_to_rcsv cfg uniq text_data =
     (case rcsv_before_prune cfg uniq text_data of
        Inl e \<Rightarrow> Inl e
      | Inr (out_matrix, merged_nulls_list) \<Rightarrow>
          pop_rows out_matrix (null_index merged_nulls_list))"

subsection \<open>\<^verbatim>\<open>etext_to_rcsv\<close>\<close>

text \<open>
  \<^verbatim>\<open>
  def _try_index(list_, val):
      try:
          return list_.index(val)
      except:
          print(val)
          pass
  \<close>
  The printed lines are threaded through as a list; the value is \<open>None\<close> when the
  lookup failed.
\<close>

definition try_index :: "string list \<Rightarrow> string \<Rightarrow> string list \<Rightarrow> nat option \<times> string list" where
  "try_index list_0 val printed =
     (case list_index list_0 val of
        Inl _ \<Rightarrow> (None, printed @ [val])
      | Inr i \<Rightarrow> (Some i, printed))"

text \<open>
  \<^verbatim>\<open>
  header_index = [_try_index(wholefile[0], hed) for hed in header_list if
                  _try_index(wholefile[0], hed) is not None]
  \<close>
  The condition is evaluated first; the element is evaluated (a second call) only when
  the condition holds.
\<close>

fun etext_header_index ::
  "string list \<Rightarrow> string list \<Rightarrow> string list \<Rightarrow> nat list \<times> string list" where
  "etext_header_index row [] printed = ([], printed)"
| "etext_header_index row (hed # heds) printed =
     (case try_index row hed printed of
        (None, printed1) \<Rightarrow> etext_header_index row heds printed1
      | (Some _, printed1) \<Rightarrow>
          (case try_index row hed printed1 of
             (None, printed2) \<Rightarrow> etext_header_index row heds printed2
           | (Some i, printed2) \<Rightarrow>
               (case etext_header_index row heds printed2 of
                  (indices, printed3) \<Rightarrow> (i # indices, printed3))))"

text \<open>\<^verbatim>\<open>word.replace("NULL", "NaN")\<close>: every occurrence, left to right.\<close>

function null_to_nan :: "string \<Rightarrow> string" where
  "null_to_nan word =
     (if word = [] then []
      else if take 4 word = NULL then ''NaN'' @ null_to_nan (drop 4 word)
      else hd word # null_to_nan (tl word))"
  by pat_completeness auto
termination
  by (relation "measure length") (auto simp: neq_Nil_conv)

declare null_to_nan.simps [simp del]

text \<open>
  \<^verbatim>\<open>
  def etext_to_rcsv(in_file, task):
      header_list = headers.get(task)
      delimiter_, rem_lines = _det_file_type(in_file)
      ... wholefile = list(csv.reader(fo, delimiter=delimiter_)) ...
      for i_row in range(rem_lines):
          wholefile.pop(0)
      header_index = ...
      out_arr = [[wholefile[i_row][col] for col in header_index]
                 for i_row in range(fn.size(wholefile, 0))]
      if remnulls.get(task):
          null_index = [list(set([iRow for col in out_arr[iRow] if col == "NULL"]))
                        for iRow in range(fn.size(out_arr, 0))]
          null_index = sorted([val for sublist in null_index for val in sublist],
                               reverse=True)
          [out_arr.pop(i) for i in null_index]
      else:
          out_arr = [[word.replace("NULL", "NaN") for word in row]
                     for row in out_arr]
      out_file = in_file[:len(in_file)-3] + "csv"
  \<close>
  The rows that \<^verbatim>\<open>csv.reader\<close> yields are the argument \<open>wholefile\<close>; the result is
  the output file name, the rows written, and the lines printed by \<^verbatim>\<open>_try_index\<close>.
\<close>

definition etext_to_rcsv ::
  "string list \<Rightarrow> bool \<Rightarrow> string \<Rightarrow> string list list
   \<Rightarrow> error + string \<times> string list list \<times> string list" where
  "etext_to_rcsv header_list0 remnulls in_file wholefile0 =
     (case det_file_type in_file of
        Inl e \<Rightarrow> Inl e
      | Inr (delimiter, rem_lines) \<Rightarrow>
          if length wholefile0 < rem_lines then Inl IndexError
          else
            let wholefile = drop rem_lines wholefile0
            in if header_list0 \<noteq> [] \<and> wholefile = [] then Inl IndexError
               else
                 (case etext_header_index (hd wholefile) header_list0 [] of
                    (header_index, printed) \<Rightarrow>
                      (case map_err (\<lambda>row. map_err (\<lambda>col. if col < length row then Inr (row ! col)
                                                            else Inl IndexError) header_index)
                              wholefile of
                         Inl e \<Rightarrow> Inl e
                       | Inr out_arr \<Rightarrow>
                           (case (if remnulls
                                  then pop_rows out_arr
                                         (rev (filter (\<lambda>iRow. NULL \<in> set (out_arr ! iRow))
                                                 [0..<length out_arr]))
                                  else Inr (map (map null_to_nan) out_arr)) of
                              Inl e \<Rightarrow> Inl e
                            | Inr out_arr' \<Rightarrow>
                                Inr (take (length in_file - 3) in_file @ ''csv'',
                                     out_arr', printed)))))"

section \<open>Properties\<close>

subsection \<open>File type\<close>

lemma skip_dots_iff: "skip_dots p i d = (\<exists>k. i \<le> k \<and> k < d \<and> p ! k \<noteq> CHR ''.'')"
proof (induction p i d rule: skip_dots.induct)
  case (1 p i d)
  show ?case
  proof (cases "i < d")
    case False then show ?thesis by (subst skip_dots.simps) auto
  next
    case True
    show ?thesis
    proof (cases "p ! i \<noteq> CHR ''.''")
      case True with \<open>i < d\<close> show ?thesis by (subst skip_dots.simps) auto
    next
      case False
      have "skip_dots p i d = skip_dots p (Suc i) d"
        using \<open>i < d\<close> False by (subst skip_dots.simps) simp
      also have "\<dots> = (\<exists>k. Suc i \<le> k \<and> k < d \<and> p ! k \<noteq> CHR ''.'')"
        using 1 \<open>i < d\<close> False by simp
      also have "\<dots> = (\<exists>k. i \<le> k \<and> k < d \<and> p ! k \<noteq> CHR ''.'')"
        using False by (metis Suc_leD Suc_leI le_neq_implies_less)
      finally show ?thesis .
    qed
  qed
qed

lemma rfind_append_ext:
  assumes "c \<notin> set x"
  shows "rfind (p @ x) c = rfind p c"
  using assms by (auto simp: rfind_def takeWhile_append)

lemma rfind_dot_ext:
  assumes "CHR ''.'' \<notin> set x"
  shows "rfind (p @ CHR ''.'' # x) CHR ''.'' = int (length p)"
  using assms by (auto simp: rfind_def takeWhile_append)

lemma rfind_less: "rfind p c < int (length p)"
  by (simp add: rfind_def)

lemma in_set_drop_nth:
  "x \<in> set (drop n xs) \<longleftrightarrow> (\<exists>i. n \<le> i \<and> i < length xs \<and> xs ! i = x)"
proof
  assume "x \<in> set (drop n xs)"
  then obtain j where j: "j < length (drop n xs)" "drop n xs ! j = x"
    unfolding in_set_conv_nth by blast
  then have "n \<le> n + j \<and> n + j < length xs \<and> xs ! (n + j) = x" by simp
  then show "\<exists>i. n \<le> i \<and> i < length xs \<and> xs ! i = x" by blast
next
  assume "\<exists>i. n \<le> i \<and> i < length xs \<and> xs ! i = x"
  then obtain i where i: "n \<le> i" "i < length xs" "xs ! i = x" by blast
  then have "i - n < length (drop n xs) \<and> drop n xs ! (i - n) = x" by simp
  then show "x \<in> set (drop n xs)" unfolding in_set_conv_nth by blast
qed

lemma has_stem_iff:
  "has_stem p = (\<exists>k. nat (rfind p CHR ''/'' + 1) \<le> k \<and> k < length p \<and> p ! k \<noteq> CHR ''.'')"
proof -
  have "has_stem p = (\<exists>c. c \<in> set (drop (nat (rfind p CHR ''/'' + 1)) p) \<and> c \<noteq> CHR ''.'')"
    unfolding has_stem_def basename_def list_ex_iff by blast
  then show ?thesis
    unfolding in_set_drop_nth by blast
qed

lemma splitext_ext:
  assumes "CHR ''.'' \<notin> set x" and "CHR ''/'' \<notin> set x"
  shows "splitext (p @ CHR ''.'' # x) =
         (if has_stem p then (p, CHR ''.'' # x) else (p @ CHR ''.'' # x, []))"
proof -
  let ?f = "p @ CHR ''.'' # x"
  have "CHR ''/'' \<notin> set (CHR ''.'' # x)" using assms(2) by simp
  then have sep: "rfind ?f CHR ''/'' = rfind p CHR ''/''"
    by (rule rfind_append_ext)
  have dot: "rfind ?f CHR ''.'' = int (length p)"
    using assms(1) by (rule rfind_dot_ext)
  have gt: "rfind p CHR ''/'' < int (length p)" by (rule rfind_less)
  have "\<And>k. k < length p \<Longrightarrow> ?f ! k = p ! k" by (simp add: nth_append)
  then have sk: "skip_dots ?f (nat (rfind p CHR ''/'' + 1)) (length p) = has_stem p"
    unfolding skip_dots_iff has_stem_iff by metis
  have "splitext ?f =
        (if int (length p) > rfind p CHR ''/'' \<and> skip_dots ?f (nat (rfind p CHR ''/'' + 1)) (length p)
         then (take (length p) ?f, drop (length p) ?f) else (?f, []))"
    unfolding splitext_def Let_def sep dot by simp
  also have "\<dots> = (if has_stem p then (p, CHR ''.'' # x) else (?f, []))"
    unfolding sk using gt by simp
  finally show ?thesis .
qed

lemma splitext_append: "fst (splitext f) @ snd (splitext f) = f"
  by (simp add: splitext_def Let_def)

lemma det_file_type_csv_iff:
  "det_file_type f = Inr ('','', 0) \<longleftrightarrow> (\<exists>p. f = p @ ''.csv'' \<and> has_stem p)"
proof
  assume "det_file_type f = Inr ('','', 0)"
  then have sf: "snd (splitext f) = ''.csv''"
    by (auto simp: det_file_type_def Let_def split: if_splits)
  then have f: "f = fst (splitext f) @ ''.csv''"
    using splitext_append [of f] by simp
  have "has_stem (fst (splitext f))"
  proof (rule ccontr)
    assume "\<not> has_stem (fst (splitext f))"
    then have "splitext (fst (splitext f) @ ''.csv'') = (fst (splitext f) @ ''.csv'', '''')"
      using splitext_ext [of "''csv''" "fst (splitext f)"] by simp
    then have "snd (splitext f) = ''''" using f by (metis snd_conv)
    then show False using sf by simp
  qed
  then show "\<exists>p. f = p @ ''.csv'' \<and> has_stem p" using f by blast
next
  assume "\<exists>p. f = p @ ''.csv'' \<and> has_stem p"
  then obtain p where "f = p @ ''.csv''" "has_stem p" by blast
  then show "det_file_type f = Inr ('','', 0)"
    using splitext_ext [of "''csv''" p] by (simp add: det_file_type_def)
qed

lemma det_file_type_txt_iff:
  "det_file_type f = Inr ([CHR 0x09], 3) \<longleftrightarrow> (\<exists>p. f = p @ ''.txt'' \<and> has_stem p)"
proof
  assume "det_file_type f = Inr ([CHR 0x09], 3)"
  then have sf: "snd (splitext f) = ''.txt''"
    by (auto simp: det_file_type_def Let_def split: if_splits)
  then have f: "f = fst (splitext f) @ ''.txt''"
    using splitext_append [of f] by simp
  have "has_stem (fst (splitext f))"
  proof (rule ccontr)
    assume "\<not> has_stem (fst (splitext f))"
    then have "splitext (fst (splitext f) @ ''.txt'') = (fst (splitext f) @ ''.txt'', '''')"
      using splitext_ext [of "''txt''" "fst (splitext f)"] by simp
    then have "snd (splitext f) = ''''" using f by (metis snd_conv)
    then show False using sf by simp
  qed
  then show "\<exists>p. f = p @ ''.txt'' \<and> has_stem p" using f by blast
next
  assume "\<exists>p. f = p @ ''.txt'' \<and> has_stem p"
  then obtain p where "f = p @ ''.txt''" "has_stem p" by blast
  then show "det_file_type f = Inr ([CHR 0x09], 3)"
    using splitext_ext [of "''txt''" p] by (simp add: det_file_type_def)
qed

lemma det_file_type_cases:
  "det_file_type f = Inr ('','', 0) \<or> det_file_type f = Inr ([CHR 0x09], 3)
   \<or> det_file_type f = Inl (ValueError ''Input file name is empty.'')
   \<or> det_file_type f = Inl (ValueError ''Input file name is not .csv or .txt.'')"
  by (simp add: det_file_type_def Let_def)

text \<open>
  C8. \<^verbatim>\<open>_det_file_type\<close> decides on the extension that \<^verbatim>\<open>os.path.splitext\<close>
  returns, not on the end of the name. For a name \<open>p @ ".csv"\<close> whose last path
  component has, in front of the suffix, a character other than a dot, it returns the
  delimiter \<^verbatim>\<open>","\<close> and 0 lines; for \<open>p @ ".txt"\<close> of that kind the tab and 3 lines.
  When that stem is missing (the names \<^verbatim>\<open>.csv\<close>, \<^verbatim>\<open>dir/.txt\<close>, \<^verbatim>\<open>..csv\<close>) the
  extension is empty and the call raises ValueError, as it does for every name of neither
  form and for the empty name.
\<close>

theorem det_file_type_extension:
  "(has_stem p \<longrightarrow>
      det_file_type (p @ ''.csv'') = Inr ('','', 0)
      \<and> det_file_type (p @ ''.txt'') = Inr ([CHR 0x09], 3))
   \<and> (\<not> has_stem p \<longrightarrow>
      det_file_type (p @ ''.csv'') = Inl (ValueError ''Input file name is not .csv or .txt.'')
      \<and> det_file_type (p @ ''.txt'') = Inl (ValueError ''Input file name is not .csv or .txt.''))
   \<and> ((\<forall>q. has_stem q \<longrightarrow> f \<noteq> q @ ''.csv'' \<and> f \<noteq> q @ ''.txt'') \<longrightarrow>
      (\<exists>msg. det_file_type f = Inl (ValueError msg)))
   \<and> det_file_type '''' = Inl (ValueError ''Input file name is empty.'')"
proof (intro conjI impI)
  assume "has_stem p"
  then show "det_file_type (p @ ''.csv'') = Inr ('','', 0)"
    using det_file_type_csv_iff by blast
  from \<open>has_stem p\<close> show "det_file_type (p @ ''.txt'') = Inr ([CHR 0x09], 3)"
    using det_file_type_txt_iff by blast
next
  assume n: "\<not> has_stem p"
  show "det_file_type (p @ ''.csv'') = Inl (ValueError ''Input file name is not .csv or .txt.'')"
    using n splitext_ext [of "''csv''" p] by (simp add: det_file_type_def)
  show "det_file_type (p @ ''.txt'') = Inl (ValueError ''Input file name is not .csv or .txt.'')"
    using n splitext_ext [of "''txt''" p] by (simp add: det_file_type_def)
next
  assume a: "\<forall>q. has_stem q \<longrightarrow> f \<noteq> q @ ''.csv'' \<and> f \<noteq> q @ ''.txt''"
  then have "det_file_type f \<noteq> Inr ('','', 0)" "det_file_type f \<noteq> Inr ([CHR 0x09], 3)"
    using det_file_type_csv_iff det_file_type_txt_iff by blast+
  then show "\<exists>msg. det_file_type f = Inl (ValueError msg)"
    using det_file_type_cases [of f] by auto
next
  show "det_file_type '''' = Inl (ValueError ''Input file name is empty.'')"
    by (simp add: det_file_type_def splitext_def rfind_def)
qed



theorem det_file_type_extension_witness:
  "has_stem ''data/run1''
   \<and> det_file_type ''data/run1.csv'' = Inr ('','', 0)
   \<and> det_file_type ''data/run1.txt'' = Inr ([CHR 0x09], 3)
   \<and> \<not> has_stem ''data/''
   \<and> det_file_type ''data/.csv'' = Inl (ValueError ''Input file name is not .csv or .txt.'')
   \<and> (\<exists>msg. det_file_type ''run1.edat'' = Inl (ValueError msg))"
proof -
  have s: "has_stem ''data/run1''"
    by (simp add: has_stem_def basename_def rfind_def)
  have n: "\<not> has_stem ''data/''"
    by (simp add: has_stem_def basename_def rfind_def)
  have o: "\<forall>q. has_stem q \<longrightarrow> ''run1.edat'' \<noteq> q @ ''.csv'' \<and> ''run1.edat'' \<noteq> q @ ''.txt''"
  proof (intro allI impI conjI)
    fix q
    show "''run1.edat'' \<noteq> q @ ''.csv''"
    proof
      assume "''run1.edat'' = q @ ''.csv''"
      then have "last ''run1.edat'' = last (q @ ''.csv'')" by simp
      then show False by simp
    qed
    show "''run1.edat'' \<noteq> q @ ''.txt''"
    proof
      assume "''run1.edat'' = q @ ''.txt''"
      then have "butlast ''run1.edat'' = butlast (q @ ''.txt'')" by simp
      then have "last (butlast ''run1.edat'') = last (q @ ''.tx'')" by (simp add: butlast_append)
      then show False by simp
    qed
  qed
  from s n o show ?thesis
    using det_file_type_extension [of "''data/run1''" "''run1.edat''"]
      det_file_type_extension [of "''data/''" "''run1.edat''"]
    by simp
qed

theorem det_file_type_counterexample:
  "suffix ''.csv'' ''.csv''
   \<and> det_file_type ''.csv'' = Inl (ValueError ''Input file name is not .csv or .txt.'')"
  by (simp add: det_file_type_def splitext_def rfind_def skip_dots.simps)

subsection \<open>Frames\<close>

lemma marker_index_Nil [simp]: "marker_index m [] = []"
  by (simp add: marker_index_def)

lemma marker_index_Cons:
  "marker_index m (x # xs) = (if x = m then [0] else []) @ map Suc (marker_index m xs)"
proof -
  have "[0..<length (x # xs)] = 0 # map Suc [0..<length xs]"
    by (simp add: upt_conv_Cons map_Suc_upt del: upt_Suc)
  then show ?thesis
    by (simp add: marker_index_def filter_map comp_def)
qed

lemma marker_index_none:
  assumes "m \<notin> set xs"
  shows "marker_index m xs = []"
  using assms by (induction xs) (auto simp: marker_index_Cons)

lemma marker_index_append:
  "marker_index m (xs @ ys) = marker_index m xs @ map (\<lambda>i. length xs + i) (marker_index m ys)"
  by (induction xs) (simp_all add: marker_index_Cons comp_def)

lemma data_by_rows_no_frames:
  assumes "LogFrameStart \<notin> set filtered_data" and "LogFrameEnd \<notin> set filtered_data"
  shows "data_by_rows filtered_data = Inl IndexError"
  using assms by (simp add: data_by_rows_def check_frames_def marker_index_none)

text \<open>
  C10. When no line of the input is a frame marker after sanitising, both marker lists
  are empty, their lengths are equal, and the validation reads the first element of an
  empty list: \<^verbatim>\<open>text_to_csv\<close> and \<^verbatim>\<open>text_to_rcsv\<close> end in IndexError, before
  the format error and before any block is produced.
\<close>

theorem no_frames_index_error:
  assumes "\<forall>row \<in> set text_data. strip row \<noteq> LogFrameStart \<and> strip row \<noteq> LogFrameEnd"
  shows "text_to_csv uniq text_data = Inl IndexError
         \<and> text_to_rcsv cfg uniq text_data = Inl IndexError"
proof -
  have "LogFrameStart \<notin> set (map strip text_data)" "LogFrameEnd \<notin> set (map strip text_data)"
    using assms by auto
  then have "data_by_rows (map strip text_data) = Inl IndexError"
    by (rule data_by_rows_no_frames)
  then have d: "dense_matrix uniq text_data = Inl IndexError"
    by (simp add: dense_matrix_def)
  show ?thesis
    by (simp add: text_to_csv_def text_to_rcsv_def rcsv_before_prune_def rcsv_renamed_def
        rcsv_data_matrix_def d)
qed

theorem no_frames_index_error_witness:
  "list_all (\<lambda>row. strip row \<noteq> LogFrameStart \<and> strip row \<noteq> LogFrameEnd)
     [''*** Header Start ***'', ''Subject: 1'', ''*** Header End ***'']
   \<and> text_to_csv remdups [''*** Header Start ***'', ''Subject: 1'', ''*** Header End ***'']
       = Inl IndexError
   \<and> text_to_rcsv \<lparr>header_list = [''Subject''], replacements = Map.empty, fill_block = [],
          columns_to_merge = [], merge_col_names_list = [], null_column_names = [''Subject'']\<rparr>
        remdups [''*** Header Start ***'', ''Subject: 1'', ''*** Header End ***'']
       = Inl IndexError"
proof -
  have h: "\<forall>row \<in> set [''*** Header Start ***'', ''Subject: 1'', ''*** Header End ***''].
       strip row \<noteq> LogFrameStart \<and> strip row \<noteq> LogFrameEnd"
    by (simp add: strip_def)
  show ?thesis
    using h no_frames_index_error [OF h] by (simp add: list_all_iff)
qed


lemma data_by_rows_cases:
  "data_by_rows filtered_data =
     (let start_index = marker_index LogFrameStart filtered_data;
          end_index = marker_index LogFrameEnd filtered_data
      in if length start_index \<noteq> length end_index
         then Inl (ValueError ''LogFrame Starts and Ends do not match up.'')
         else if start_index = [] then Inl IndexError
         else if hd start_index \<ge> hd end_index
         then Inl (ValueError ''LogFrame Starts and Ends do not match up.'')
         else Inr (map (\<lambda>i_row. slice filtered_data (start_index ! i_row + 1) (end_index ! i_row))
                     [0..<length start_index]))"
  by (cases "marker_index LogFrameStart filtered_data";
      cases "marker_index LogFrameEnd filtered_data")
     (simp_all add: data_by_rows_def check_frames_def Let_def)

lemma slice_between:
  assumes "b \<le> length xs"
  shows "slice xs (Suc a) b = map (\<lambda>i. xs ! i) [Suc a..<b]"
proof -
  have "take (b - Suc a) (drop (Suc a) xs) = map (\<lambda>i. xs ! i) [Suc a..<b]"
    using assms by (intro nth_equalityI) (auto simp: nth_append)
  then show ?thesis by (simp add: slice_def)
qed

lemma marker_index_less:
  assumes "i \<in> set (marker_index m xs)"
  shows "i < length xs"
  using assms by (simp add: marker_index_def)

lemma data_by_rows_frames:
  assumes "start_index = marker_index LogFrameStart filtered_data"
    and "end_index = marker_index LogFrameEnd filtered_data"
    and "length start_index = length end_index"
    and "start_index \<noteq> []"
    and "hd start_index < hd end_index"
  shows "\<exists>blocks. data_by_rows filtered_data = Inr blocks
           \<and> length blocks = length start_index
           \<and> (\<forall>i < length start_index.
                 blocks ! i = map (\<lambda>j. filtered_data ! j) [Suc (start_index ! i)..<end_index ! i])"
proof -
  have "\<And>i. i < length end_index \<Longrightarrow> end_index ! i \<le> length filtered_data"
    using marker_index_less [of _ LogFrameEnd filtered_data] assms(2)
    by (metis less_imp_le_nat nth_mem)
  then have "\<And>i. i < length start_index \<Longrightarrow>
      slice filtered_data (start_index ! i + 1) (end_index ! i)
      = map (\<lambda>j. filtered_data ! j) [Suc (start_index ! i)..<end_index ! i]"
    using assms(3) by (simp add: slice_between)
  then show ?thesis
    using assms by (simp add: data_by_rows_cases Let_def)
qed

text \<open>
  C6. An input without any frame marker has equal counts of start and end markers
  (zero), and no first start or end position; the validation then reads
  \<^verbatim>\<open>start_index[0]\<close> and the functions end in IndexError, neither in the format
  error nor with an empty list of blocks.
\<close>

theorem no_frames_example:
  "marker_index LogFrameStart (map strip [''Subject: 1'']) = []
   \<and> marker_index LogFrameEnd (map strip [''Subject: 1'']) = []
   \<and> data_by_rows (map strip [''Subject: 1'']) = Inl IndexError
   \<and> text_to_csv uniq [''Subject: 1''] = Inl IndexError
   \<and> text_to_rcsv cfg uniq [''Subject: 1''] = Inl IndexError"
  by (simp add: text_to_csv_def text_to_rcsv_def rcsv_before_prune_def rcsv_renamed_def
      rcsv_data_matrix_def dense_matrix_def data_by_rows_def check_frames_def
      marker_index_Cons strip_def)

subsection \<open>The dense table and \<^verbatim>\<open>text_to_csv\<close>\<close>

lemma map_length_update_cell:
  "map length (dm[k := (dm ! k)[i := v]]) = map length dm"
proof (cases "k < length dm")
  case True
  then show ?thesis by (simp add: map_update list_update_same_conv)
next
  case False
  then have "dm[k := (dm ! k)[i := v]] = dm" by (intro list_update_beyond) simp
  then show ?thesis by simp
qed

lemma map_length_put_field:
  "map length (put_field unique_headers i_row field dm) = map length dm"
proof -
  have "map length (fold (\<lambda>k_header dm.
             if fst field = unique_headers ! k_header
             then dm[k_header := (dm ! k_header)[i_row + 1 := snd field]]
             else dm) ks dm) = map length dm" for ks
    by (induction ks arbitrary: dm) (simp_all add: map_length_update_cell)
  then show ?thesis by (simp add: put_field_def)
qed

lemma map_length_fold_put_field:
  "map length (fold (put_field unique_headers i_row) fs dm) = map length dm"
  by (induction fs arbitrary: dm) (simp_all add: map_length_put_field)

lemma map_length_fill_matrix:
  "map length (fill_matrix unique_headers parsed dm) = map length dm"
proof -
  have "map length (fold (\<lambda>i_row dm. fold (put_field unique_headers i_row) (parsed ! i_row) dm)
                      is dm) = map length dm" for "is"
    by (induction "is" arbitrary: dm) (simp_all add: map_length_fold_put_field)
  then show ?thesis by (simp add: fill_matrix_def)
qed

lemma map_length_null_matrix:
  "map length (null_matrix unique_headers n_rows) = replicate (length unique_headers) (Suc n_rows)"
  by (simp add: null_matrix_def comp_def map_replicate_const)

lemma dense_matrix_lengths:
  assumes "dense_matrix uniq text_data = Inr data_matrix"
  shows "\<exists>rows parsed. data_by_rows (map strip text_data) = Inr rows
           \<and> parse_rows rows = Inr parsed
           \<and> map length data_matrix
               = replicate (length (uniq (all_headers parsed))) (Suc (length rows))"
  using assms
  by (auto simp: dense_matrix_def Let_def map_length_fill_matrix map_length_null_matrix
      split: sum.splits)

lemma length_trailing_fill:
  assumes "col \<noteq> []"
  shows "length (trailing_fill col rw) = length col"
  using assms by (cases col) (simp_all add: trailing_fill_def slice_assign_def)

lemma rows_w_vals_Nil [simp]: "rows_w_vals [] = []"
  by (simp add: rows_w_vals_def)

lemma length_fill_column_csv: "length (fill_column_csv col) = length col - 2"
  by (cases "col = []") (simp_all add: fill_column_csv_def truncate_col_def Let_def length_trailing_fill)

lemma transpose_py_empty_columns:
  assumes "k > 0"
  shows "transpose_py (replicate k []) = Inr []"
  using assms by (cases k) (simp_all add: transpose_py_def list_ex_iff)

lemma map_eq_replicate:
  assumes "\<And>x. x \<in> set xs \<Longrightarrow> f x = k"
  shows "map f xs = replicate (length xs) k"
  using assms by (induction xs) simp_all

text \<open>
  C5. A log whose only frame holds a single field line gives a table without rows:
  the one column holds the header and the value, and the last two cells of every
  column are dropped before the table is transposed. Neither the name nor the value
  is written.
\<close>

theorem single_frame_single_field:
  assumes "\<forall>hs. set (uniq hs) = set hs"
    and "data_by_rows (map strip text_data) = Inr [[line]]"
    and "split_field line = Inr (name, value)"
  shows "text_to_csv uniq text_data = Inr []"
proof -
  have parsed: "parse_rows [[line]] = Inr [[(name, value)]]"
    using assms(3) by (simp add: parse_rows_def)
  define unique_headers where "unique_headers = uniq (all_headers [[(name, value)]])"
  have "set unique_headers = {name}"
    using assms(1) by (simp add: unique_headers_def all_headers_def)
  then have "unique_headers \<noteq> []" by (metis empty_not_insert set_empty)
  then have ne: "length unique_headers > 0" by simp
  define dm where "dm = fill_matrix unique_headers [[(name, value)]] (null_matrix unique_headers 1)"
  have dense: "dense_matrix uniq text_data = Inr dm"
    using assms(2) parsed by (simp add: dense_matrix_def dm_def unique_headers_def Let_def)
  have ml: "map length dm = replicate (length unique_headers) 2"
    by (simp add: dm_def map_length_fill_matrix map_length_null_matrix)
  have len: "length dm = length unique_headers"
    using arg_cong [OF ml, of length] by simp
  have two: "length c = 2" if "c \<in> set dm" for c
  proof -
    have "length c \<in> set (map length dm)" using that by simp
    then show ?thesis unfolding ml by simp
  qed
  have "fill_column_csv c = []" if "c \<in> set dm" for c
    using two [OF that] length_fill_column_csv [of c] by simp
  then have "map fill_column_csv dm = replicate (length dm) []"
    by (rule map_eq_replicate)
  then have "transpose_py (map fill_column_csv dm) = Inr []"
    using ne len by (simp add: transpose_py_empty_columns)
  then show ?thesis by (simp add: text_to_csv_def dense)
qed

theorem single_frame_single_field_witness:
  "(\<forall>hs. set (remdups hs) = set hs)
   \<and> data_by_rows (map strip [LogFrameStart @ [CHR 0x0D, CHR 0x0A],
        [CHR 0x09] @ ''Stimulus: cat'' @ [CHR 0x0D, CHR 0x0A],
        LogFrameEnd @ [CHR 0x0D, CHR 0x0A]]) = Inr [[''Stimulus: cat'']]
   \<and> split_field ''Stimulus: cat'' = Inr (''Stimulus'', ''cat'')
   \<and> text_to_csv remdups [LogFrameStart @ [CHR 0x0D, CHR 0x0A],
        [CHR 0x09] @ ''Stimulus: cat'' @ [CHR 0x0D, CHR 0x0A],
        LogFrameEnd @ [CHR 0x0D, CHR 0x0A]] = Inr []"
proof -
  have u: "\<forall>hs. set (remdups hs) = set hs" by simp
  have d: "data_by_rows (map strip [LogFrameStart @ [CHR 0x0D, CHR 0x0A],
        [CHR 0x09] @ ''Stimulus: cat'' @ [CHR 0x0D, CHR 0x0A],
        LogFrameEnd @ [CHR 0x0D, CHR 0x0A]]) = Inr [[''Stimulus: cat'']]"
    by (simp add: data_by_rows_def check_frames_def marker_index_def strip_def slice_def
        upt_rec)
  have s: "split_field ''Stimulus: cat'' = Inr (''Stimulus'', ''cat'')"
    by (simp add: split_field_def)
  show ?thesis
    using u d s single_frame_single_field [OF u d s] by simp
qed

theorem single_frame_single_field_counterexample:
  "text_to_csv remdups [LogFrameStart, ''name: value'', LogFrameEnd] = Inr []
   \<and> text_to_csv remdups [LogFrameStart, ''name: value'', LogFrameEnd]
       \<noteq> Inr [[''name''], [''value'']]"
  by (simp add: text_to_csv_def dense_matrix_def data_by_rows_def check_frames_def
      marker_index_def strip_def slice_def upt_rec parse_rows_def split_field_def
      all_headers_def fill_matrix_def put_field_def null_matrix_def fill_column_csv_def
      rows_w_vals_def trailing_fill_def slice_assign_def truncate_col_def transpose_py_def)

subsection \<open>Merging\<close>

lemma merge_loop_all_else:
  assumes "list_all (\<lambda>c. length c = length merged) cols"
  shows "merge_loop ''all_else'' cols merged =
         Inr (map (\<lambda>r. case filter (\<lambda>col. col ! r \<noteq> NULL) cols of
                           [] \<Rightarrow> merged ! r
                         | cs \<Rightarrow> last cs ! r) [0..<length merged])"
  using assms
proof (induction cols arbitrary: merged)
  case Nil
  show ?case by (simp add: map_nth)
next
  case (Cons col cols)
  let ?m = "map (merge_row ''all_else'' col merged) [0..<length merged]"
  have len: "length col = length merged" using Cons.prems by simp
  have rest: "list_all (\<lambda>c. length c = length ?m) cols" using Cons.prems by simp
  have step: "merge_step ''all_else'' col merged = Inr ?m"
    by (simp add: merge_step_def len)
  have "merge_loop ''all_else'' (col # cols) merged = merge_loop ''all_else'' cols ?m"
    by (simp add: step)
  also have "\<dots> = Inr (map (\<lambda>r. case filter (\<lambda>col. col ! r \<noteq> NULL) cols of
                           [] \<Rightarrow> ?m ! r
                         | cs \<Rightarrow> last cs ! r) [0..<length ?m])"
    by (rule Cons.IH [OF rest])
  also have "\<dots> = Inr (map (\<lambda>r. case filter (\<lambda>c. c ! r \<noteq> NULL) (col # cols) of
                           [] \<Rightarrow> merged ! r
                         | cs \<Rightarrow> last cs ! r) [0..<length merged])"
    by (auto simp: merge_row_def split: list.splits)
  finally show ?case .
qed

text \<open>
  C3. Under \<^verbatim>\<open>"all_else"\<close>, for a non-empty list of columns of one length,
  \<^verbatim>\<open>_merge_lists\<close> returns at each row the value of the last column that is not
  \<^verbatim>\<open>"NULL"\<close> there, and the first column's value when every column is null there;
  the columns \<^verbatim>\<open>["NULL","X","NULL"]\<close> and \<^verbatim>\<open>["Y","NULL","Z"]\<close> merge to
  \<^verbatim>\<open>["Y","X","Z"]\<close>.
\<close>

theorem merge_lists_all_else:
  "(lsts \<noteq> [] \<and> list_all (\<lambda>c. length c = n) lsts \<longrightarrow>
      merge_lists lsts ''all_else'' = Inr (map (last_non_null lsts) [0..<n]))
   \<and> merge_lists [[NULL, ''X'', NULL], [''Y'', NULL, ''Z'']] ''all_else''
       = Inr [''Y'', ''X'', ''Z'']"
proof (intro conjI impI)
  assume a: "lsts \<noteq> [] \<and> list_all (\<lambda>c. length c = n) lsts"
  then obtain first rest where l: "lsts = first # rest" by (cases lsts) auto
  have n: "length first = n" using a l by simp
  have all: "list_all (\<lambda>c. length c = length first) lsts"
    using a n by simp
  have "merge_lists lsts ''all_else'' = merge_loop ''all_else'' lsts first"
    by (simp add: merge_lists_def l)
  also have "\<dots> = Inr (map (\<lambda>r. case filter (\<lambda>col. col ! r \<noteq> NULL) lsts of
                           [] \<Rightarrow> first ! r
                         | cs \<Rightarrow> last cs ! r) [0..<length first])"
    by (rule merge_loop_all_else [OF all])
  also have "\<dots> = Inr (map (last_non_null lsts) [0..<n])"
    by (auto simp: last_non_null_def l n split: list.splits)
  finally show "merge_lists lsts ''all_else'' = Inr (map (last_non_null lsts) [0..<n])" .
next
  show "merge_lists [[NULL, ''X'', NULL], [''Y'', NULL, ''Z'']] ''all_else''
        = Inr [''Y'', ''X'', ''Z'']"
    by (simp add: merge_lists_def merge_step_def merge_row_def upt_rec)
qed

theorem merge_lists_all_else_witness:
  "[[''a'', NULL], [NULL, NULL], [''b'', NULL]] \<noteq> []
   \<and> list_all (\<lambda>c. length c = 2) [[''a'', NULL], [NULL, NULL], [''b'', NULL]]
   \<and> merge_lists [[''a'', NULL], [NULL, NULL], [''b'', NULL]] ''all_else''
       = Inr [''b'', NULL]"
proof -
  have "merge_lists [[''a'', NULL], [NULL, NULL], [''b'', NULL]] ''all_else''
        = Inr (map (last_non_null [[''a'', NULL], [NULL, NULL], [''b'', NULL]]) [0..<2])"
    using merge_lists_all_else [of "[[''a'', NULL], [NULL, NULL], [''b'', NULL]]" 2] by simp
  then show ?thesis by (simp add: last_non_null_def upt_rec)
qed

text \<open>
  C2. Under \<^verbatim>\<open>"all_null"\<close> the columns \<^verbatim>\<open>["NULL","X","NULL"]\<close> and
  \<^verbatim>\<open>["Y","NULL","Z"]\<close> merge to \<^verbatim>\<open>["NULL","NULL","NULL"]\<close>: a row is null as
  soon as one column is null there. The expected \<^verbatim>\<open>["NULL","X","NULL"]\<close> is not
  what the function returns.
\<close>

theorem merge_lists_all_null_example:
  "merge_lists [[NULL, ''X'', NULL], [''Y'', NULL, ''Z'']] ''all_null''
   = Inr [NULL, NULL, NULL]"
  by (simp add: merge_lists_def merge_step_def merge_row_def upt_rec)

theorem merge_lists_all_null_counterexample:
  "merge_lists [[NULL, ''X'', NULL], [''Y'', NULL, ''Z'']] ''all_null''
   \<noteq> Inr [NULL, ''X'', NULL]"
  by (simp add: merge_lists_def merge_step_def merge_row_def upt_rec)

end
